theory Spec2Isabelle
  imports Main "HOL-Library.Char_ord" "HOL-Library.List_Lexorder" "HOL-Library.Multiset"
begin

section \<open>The C library, as far as the server uses it\<close>

text \<open>
  A C string is a \<open>string\<close> without the byte 0; a pointer into a string is the suffix that
  starts there, and \<open>NULL\<close> is \<open>None\<close>. Undefined behaviour of the C program
  (a \<open>NULL\<close> handed to \<open>strdup\<close>, \<open>strchr\<close> or \<open>%s\<close>, a write past a buffer, a read
  of an uninitialised object) is a value of type \<open>fault\<close>, returned as \<open>Inl\<close>.
  Memory allocation is taken to succeed always.
\<close>

abbreviation NUL :: char where "NUL \<equiv> CHR 0x00"
abbreviation TAB :: char where "TAB \<equiv> CHR 0x09"
abbreviation LF :: char where "LF \<equiv> CHR 0x0A"
abbreviation CR :: char where "CR \<equiv> CHR 0x0D"
abbreviation DQ :: char where "DQ \<equiv> CHR 0x22"
abbreviation CRLF :: string where "CRLF \<equiv> [CR, LF]"

datatype fault = NULL_ARGUMENT | BUFFER_OVERFLOW | UNINITIALISED_READ

text \<open>\<open>BUFSIZ\<close> of \<open>stdio.h\<close>, with the value glibc gives it.\<close>

definition BUFSIZ :: nat where
  "BUFSIZ = 8192"

text \<open>The bytes of a buffer up to its first 0: what the string functions see of it.\<close>

definition c_str :: "string \<Rightarrow> string" where
  "c_str b = takeWhile (\<lambda>c. c \<noteq> NUL) b"

text \<open>\<open>strchr(s, c)\<close>: the suffix of \<open>s\<close> at the first \<open>c\<close>.\<close>

definition strchr :: "string \<Rightarrow> char \<Rightarrow> string option" where
  "strchr s c = (case dropWhile (\<lambda>x. x \<noteq> c) s of [] \<Rightarrow> None | r # rs \<Rightarrow> Some (r # rs))"

text \<open>\<open>strrchr(s, c)\<close>: the suffix of \<open>s\<close> at the last \<open>c\<close>.\<close>

definition strrchr :: "string \<Rightarrow> char \<Rightarrow> string option" where
  "strrchr s c = (if c \<in> set s then Some (c # rev (takeWhile (\<lambda>x. x \<noteq> c) (rev s))) else None)"

text \<open>
  \<open>strtok\<close> keeps a pointer between calls; here a call takes the text to scan and returns
  the token with the text left for the next call, \<open>strtok(NULL, delim)\<close> being a call on
  that text. Leading delimiters are skipped; the token ends before the next delimiter, which
  \<open>strtok\<close> overwrites with 0.
\<close>

definition strtok :: "string \<Rightarrow> string \<Rightarrow> string option \<times> string" where
  "strtok s delim =
     (case dropWhile (\<lambda>c. c \<in> set delim) s of
        [] \<Rightarrow> (None, [])
      | t # ts \<Rightarrow> (Some (takeWhile (\<lambda>c. c \<notin> set delim) (t # ts)),
                  drop 1 (dropWhile (\<lambda>c. c \<notin> set delim) (t # ts))))"

text \<open>What the scanned buffer reads as, from its start, once \<open>strtok\<close> has written its 0.\<close>

definition strtok_buffer :: "string \<Rightarrow> string \<Rightarrow> string" where
  "strtok_buffer s delim =
     takeWhile (\<lambda>c. c \<in> set delim) s @
     takeWhile (\<lambda>c. c \<notin> set delim) (dropWhile (\<lambda>c. c \<in> set delim) s)"

text \<open>\<open>strncmp\<close> on strings without 0: the order of the first \<open>n\<close> bytes.\<close>

definition strncmp :: "string \<Rightarrow> string \<Rightarrow> nat \<Rightarrow> int" where
  "strncmp a b n =
     (if take n a = take n b then 0 else if take n a < take n b then - 1 else 1)"

text \<open>
  \<open>fgets(buffer, n, stream)\<close> on the bytes still to be read: at most \<open>n - 1\<close> bytes, ending
  after the first line feed; \<open>NULL\<close> at the end of the stream. The result is the buffer as a
  C string and the bytes left in the stream.
\<close>

definition read_line :: "nat \<Rightarrow> string \<Rightarrow> string" where
  "read_line k s =
     (let i = length (takeWhile (\<lambda>c. c \<noteq> LF) s)
      in if i < k then take (Suc i) s else take k s)"

definition fgets :: "nat \<Rightarrow> string \<Rightarrow> (string \<times> string) option" where
  "fgets n s =
     (if s = [] then None
      else Some (c_str (read_line (n - 1) s), drop (length (read_line (n - 1) s)) s))"

section \<open>The header spidey.h\<close>

text \<open>
  The header is not among the sources. Its macros, its enumeration and its structures are
  modelled from the specification, with the names the sources use for them.
\<close>

text \<open>
  Modelled from the spec: the macro \<open>WHITESPACE\<close> of spidey.h. The request line is
  "tokenized on whitespace", a rules line is "whitespace-separated"; the characters are those
  that \<open>skip_whitespace\<close> of utils.c takes as whitespace.
\<close>

definition WHITESPACE :: string where
  "WHITESPACE = [CHR '' '', TAB, CR, LF]"

text \<open>
  Modelled from the spec: the macro \<open>chomp\<close> of spidey.h. The value of a header has its
  "trailing line-terminator characters stripped".
\<close>

definition chomp :: "string \<Rightarrow> string" where
  "chomp s = rev (dropWhile (\<lambda>c. c = CR \<or> c = LF) (rev s))"

text \<open>
  Modelled from the spec: the macro \<open>streq\<close> of spidey.h. A rule is taken when its token
  "matches the extension exactly".
\<close>

definition streq :: "string \<Rightarrow> string \<Rightarrow> bool" where
  "streq a b = (a = b)"

text \<open>
  Modelled from the spec: the enumeration \<open>Status\<close> of spidey.h, with the four members the
  specification lists, in its order. \<open>Status_value\<close> is the integer of a member: C numbers
  the members of an enumeration from 0, and these are the integers the \<open>switch\<close> of
  \<open>http_status_string\<close> has as labels. The numbers 200, 400, 404 and 500 that the
  specification writes beside the members are the codes of their status lines.
\<close>

datatype Status =
  HTTP_STATUS_OK | HTTP_STATUS_BAD_REQUEST | HTTP_STATUS_NOT_FOUND
  | HTTP_STATUS_INTERNAL_SERVER_ERROR

fun Status_value :: "Status \<Rightarrow> int" where
  "Status_value HTTP_STATUS_OK = 0"
| "Status_value HTTP_STATUS_BAD_REQUEST = 1"
| "Status_value HTTP_STATUS_NOT_FOUND = 2"
| "Status_value HTTP_STATUS_INTERNAL_SERVER_ERROR = 3"

text \<open>
  Modelled from the spec: the structure \<open>Header\<close> of spidey.h, a name and a value, with
  the field names of request.c.
\<close>

record Header =
  name :: string
  data :: string

text \<open>
  Modelled from the spec: the structure \<open>Request\<close> of spidey.h, with the field names of
  the sources: method, URI, query, headers in the order of their insertion, the resolved
  path, and the connection, beside the host and the port of the client that
  \<open>accept_request\<close> looks up. The socket stream is open for reading and writing:
  \<open>stream_in\<close> holds the bytes the client has sent and the server has not read yet,
  \<open>stream_out\<close> the bytes the server has written. The list of headers is the chain of
  \<open>next\<close> pointers. A string that is not set is \<open>NULL\<close>.
\<close>

record Request =
  stream_in :: string
  stream_out :: string
  host :: string
  port :: string
  "method" :: "string option"
  uri :: "string option"
  path :: "string option"
  query :: "string option"
  headers :: "Header list"

definition fprintf :: "Request \<Rightarrow> string \<Rightarrow> Request" where
  "fprintf r s = r\<lparr>stream_out := stream_out r @ s\<rparr>"

section \<open>The global variables and the file system\<close>

datatype file_type = S_IFDIR | S_IFREG | S_IFOTHER

text \<open>
  The global variables of spidey.c that the handlers read, and the answers of the operating
  system: \<open>realpath\<close>, the file type \<open>stat\<close> finds, \<open>access(path, X_OK) == 0\<close>, the names
  in a directory in the order \<open>readdir\<close> gives them, the bytes \<open>fopen\<close> makes readable,
  and the output of a command run by \<open>popen\<close> under the exported environment variables.
\<close>

record env =
  RootPath :: string
  MimeTypesPath :: string
  DefaultMimeType :: string
  realpath :: "string \<Rightarrow> string option"
  stat :: "string \<Rightarrow> file_type option"
  access_X_OK :: "string \<Rightarrow> bool"
  readdir :: "string \<Rightarrow> string list option"
  fopen :: "string \<Rightarrow> string option"
  popen :: "(string \<times> string) list \<Rightarrow> string \<Rightarrow> string option"

text \<open>
  \<open>scandir(path, &entries, 0, alphasort)\<close>: every name of the directory, sorted.
  \<open>alphasort\<close> compares with \<open>strcoll\<close>; the server never calls \<open>setlocale\<close>, so the
  order is that of \<open>strcmp\<close>, bytes compared as unsigned.
\<close>

definition scandir :: "env \<Rightarrow> string \<Rightarrow> string list option" where
  "scandir e p = map_option sort (readdir e p)"

section \<open>utils.c\<close>

function scan_mimetypes :: "string \<Rightarrow> string \<Rightarrow> fault + string option" where
  "scan_mimetypes fs ext =
     (case fgets BUFSIZ fs of
        None \<Rightarrow> Inr None
      | Some (buffer, rest) \<Rightarrow>
          (case buffer of
             c # cs \<Rightarrow>
               if c = CHR ''#'' \<or> c = LF then scan_mimetypes rest ext
               else (case strtok (snd (strtok buffer WHITESPACE)) WHITESPACE of
                       (None, save) \<Rightarrow> scan_mimetypes rest ext
                     | (Some token, save) \<Rightarrow>
                         if streq token ext
                         then (case strtok (strtok_buffer buffer WHITESPACE) WHITESPACE of
                                 (None, save') \<Rightarrow> Inl NULL_ARGUMENT
                               | (Some mimetype, save') \<Rightarrow> Inr (Some mimetype))
                         else scan_mimetypes rest ext)
           | [] \<Rightarrow> scan_mimetypes rest ext))"
  by pat_completeness auto
termination
  by (relation "measure (\<lambda>(fs, ext). length fs)")
     (auto simp: fgets_def read_line_def BUFSIZ_def Let_def split: if_splits)

definition determine_mimetype :: "env \<Rightarrow> string \<Rightarrow> fault + string" where
  "determine_mimetype e p =
     (case strrchr p (CHR ''/'') of
        None \<Rightarrow> Inl NULL_ARGUMENT
      | Some ext0 \<Rightarrow>
          (case strchr ext0 (CHR ''.'') of
             None \<Rightarrow> Inr (DefaultMimeType e)
           | Some ext1 \<Rightarrow>
               (case fopen e (MimeTypesPath e) of
                  None \<Rightarrow> Inr (DefaultMimeType e)
                | Some fs \<Rightarrow>
                    (case scan_mimetypes fs (drop 1 ext1) of
                       Inl f \<Rightarrow> Inl f
                     | Inr None \<Rightarrow> Inr (DefaultMimeType e)
                     | Inr (Some mimetype) \<Rightarrow> Inr mimetype))))"

definition determine_request_path :: "env \<Rightarrow> string \<Rightarrow> fault + string option" where
  "determine_request_path e u =
     (if BUFSIZ \<le> length (RootPath e @ u) then Inl BUFFER_OVERFLOW
      else (case realpath e (RootPath e @ u) of
              None \<Rightarrow> Inr None
            | Some p \<Rightarrow>
                if strncmp (RootPath e) p (length (RootPath e)) = 0 then Inr (Some p)
                else Inr None))"

definition StatusStrings :: "string list" where
  "StatusStrings =
     [''200 OK'', ''400 Bad Request'', ''404 Not Found'', ''500 Internal Server Error'',
      ''418 I'm A Teapot'']"

definition http_status_string :: "int \<Rightarrow> string option" where
  "http_status_string status =
     (if status = 0 then Some (StatusStrings ! 0)
      else if status = 1 then Some (StatusStrings ! 1)
      else if status = 2 then Some (StatusStrings ! 2)
      else if status = 3 then Some (StatusStrings ! 3)
      else None)"

definition skip_whitespace :: "string \<Rightarrow> string" where
  "skip_whitespace s = dropWhile (\<lambda>c. c = CHR '' '' \<or> c = CR \<or> c = TAB \<or> c = LF) s"

section \<open>request.c\<close>

definition parse_request_method :: "Request \<Rightarrow> fault + (int \<times> Request)" where
  "parse_request_method r =
     (case fgets BUFSIZ (stream_in r) of
        None \<Rightarrow> Inr (- 1, r)
      | Some (buffer, rest) \<Rightarrow>
          (case strtok buffer WHITESPACE of
             (None, save) \<Rightarrow> Inl NULL_ARGUMENT
           | (Some m, save) \<Rightarrow>
               (case strtok save WHITESPACE of
                  (None, save') \<Rightarrow> Inr (- 1, r\<lparr>stream_in := rest, method := Some m\<rparr>)
                | (Some u, save') \<Rightarrow>
                    (case strchr u (CHR ''?'') of
                       None \<Rightarrow>
                         Inr (0, r\<lparr>stream_in := rest, method := Some m,
                                   uri := Some u, query := Some []\<rparr>)
                     | Some q \<Rightarrow>
                         (case strtok (takeWhile (\<lambda>c. c \<noteq> CHR ''?'') u) ''?'' of
                            (None, save'') \<Rightarrow> Inl NULL_ARGUMENT
                          | (Some realURI, save'') \<Rightarrow>
                              Inr (0, r\<lparr>stream_in := rest, method := Some m,
                                        uri := Some realURI, query := Some (drop 1 q)\<rparr>))))))"

text \<open>
  The loop of \<open>parse_request_headers\<close>: the bytes left in the stream and the headers
  linked so far; \<open>False\<close> when the loop was left by \<open>goto fail\<close>.
\<close>

function read_headers :: "string \<Rightarrow> Header list \<Rightarrow> bool \<times> string \<times> Header list" where
  "read_headers s hs =
     (case fgets BUFSIZ s of
        None \<Rightarrow> (True, s, hs)
      | Some (buffer, rest) \<Rightarrow>
          if \<not> 2 < length buffer then (True, rest, hs)
          else (case strtok buffer '':'' of
                  (None, save) \<Rightarrow> (False, rest, hs)
                | (Some nm, save) \<Rightarrow>
                    (case strtok save '':'' of
                       (None, save') \<Rightarrow> (False, rest, hs)
                     | (Some d, save') \<Rightarrow>
                         read_headers rest
                           (hs @ [\<lparr>name = nm, data = chomp (skip_whitespace d)\<rparr>]))))"
  by pat_completeness auto
termination
  by (relation "measure (\<lambda>(s, hs). length s)")
     (auto simp: fgets_def read_line_def BUFSIZ_def Let_def split: if_splits)

definition parse_request_headers :: "Request \<Rightarrow> int \<times> Request" where
  "parse_request_headers r =
     (case read_headers (stream_in r) [] of
        (ok, rest, hs) \<Rightarrow>
          (let r' = r\<lparr>stream_in := rest, headers := (if hs = [] then headers r else hs)\<rparr>
           in if \<not> ok then (- 1, r')
              else if headers r' = [] then (- 1, r')
              else (0, r')))"

definition parse_request :: "Request \<Rightarrow> fault + (int \<times> Request)" where
  "parse_request r =
     (case parse_request_method r of
        Inl f \<Rightarrow> Inl f
      | Inr (rc, r1) \<Rightarrow>
          if rc < 0 then Inr (- 1, r1)
          else (case parse_request_headers r1 of
                  (rc', r2) \<Rightarrow> if rc' < 0 then Inr (- 1, r2) else Inr (0, r2)))"

section \<open>handler.c\<close>

definition handle_error :: "Request \<Rightarrow> Status \<Rightarrow> fault + (Status \<times> Request)" where
  "handle_error r status =
     (case http_status_string (Status_value status) of
        None \<Rightarrow> Inl NULL_ARGUMENT
      | Some status_string \<Rightarrow>
          Inr (status,
               fprintf r
                 (''HTTP/1.0 '' @ status_string @ CRLF @
                  ''Content-Type: text/html'' @ CRLF @
                  CRLF @
                  ''<html><body>'' @
                  ''<h1><strong>'' @ status_string @ ''</strong></h1><h2>Good Try!</h2>'' @
                  ''<center><img src='' @ [DQ] @
                  ''https://www.dailydot.com/wp-content/uploads/2019/04/winnie-the-pooh-1024x512.jpg'' @
                  [DQ] @ ''></center>'' @
                  ''</html></body>'')))"

text \<open>The body of the loop over the scanned entries, for the request URI \<open>u\<close>.\<close>

fun browse_entries :: "string \<Rightarrow> string list \<Rightarrow> string" where
  "browse_entries u [] = []"
| "browse_entries u (d # ds) =
     (if \<not> streq d ''.'' \<and> \<not> streq u ''/''
      then ''<li><a href='' @ [DQ] @ u @ ''/'' @ d @ [DQ] @ ''>'' @ d @ ''</a></li>'' @ [LF]
           @ browse_entries u ds
      else if streq u ''/''
      then (if \<not> streq d ''.''
            then ''<li><a href='' @ [DQ] @ ''/'' @ d @ [DQ] @ ''>'' @ d @ ''</a></li>'' @ [LF]
                 @ browse_entries u ds
            else browse_entries u ds)
      else browse_entries u ds)"

definition handle_browse_request :: "env \<Rightarrow> Request \<Rightarrow> fault + (Status \<times> Request)" where
  "handle_browse_request e r =
     (case path r of
        None \<Rightarrow> Inl NULL_ARGUMENT
      | Some p \<Rightarrow>
          (case scandir e p of
             None \<Rightarrow> Inr (HTTP_STATUS_NOT_FOUND, r)
           | Some entries \<Rightarrow>
               (case uri r of
                  None \<Rightarrow>
                    if entries = []
                    then Inr (HTTP_STATUS_OK,
                              fprintf r (''HTTP/1.0 200 OK'' @ CRLF @
                                         ''Content-Type: text/html'' @ CRLF @ CRLF @
                                         ''<ul>'' @ [LF] @ ''</ul>'' @ [LF]))
                    else Inl NULL_ARGUMENT
                | Some u \<Rightarrow>
                    Inr (HTTP_STATUS_OK,
                         fprintf r (''HTTP/1.0 200 OK'' @ CRLF @
                                    ''Content-Type: text/html'' @ CRLF @ CRLF @
                                    ''<ul>'' @ [LF] @ browse_entries u entries @
                                    ''</ul>'' @ [LF])))))"

text \<open>The loop of \<open>fread\<close> and \<open>fwrite\<close> over chunks of \<open>BUFSIZ\<close> bytes.\<close>

function copy_chunks :: "string \<Rightarrow> string" where
  "copy_chunks fs =
     (if take BUFSIZ fs = [] then [] else take BUFSIZ fs @ copy_chunks (drop BUFSIZ fs))"
  by pat_completeness auto
termination
  by (relation "measure length") (auto simp: BUFSIZ_def)

definition handle_file_request :: "env \<Rightarrow> Request \<Rightarrow> fault + (Status \<times> Request)" where
  "handle_file_request e r =
     (case path r of
        None \<Rightarrow> Inl NULL_ARGUMENT
      | Some p \<Rightarrow>
          (case fopen e p of
             None \<Rightarrow> Inr (HTTP_STATUS_NOT_FOUND, r)
           | Some fs \<Rightarrow>
               (case determine_mimetype e p of
                  Inl f \<Rightarrow> Inl f
                | Inr mimetype \<Rightarrow>
                    Inr (HTTP_STATUS_OK,
                         fprintf r (''HTTP/1.0 200 OK'' @ CRLF @
                                    ''Content-Type: '' @ mimetype @ CRLF @ CRLF @
                                    copy_chunks fs)))))"

text \<open>The loop of \<open>fgets\<close> and \<open>fputs\<close> over the output of the script.\<close>

function copy_lines :: "string \<Rightarrow> string" where
  "copy_lines pfs =
     (case fgets BUFSIZ pfs of
        None \<Rightarrow> []
      | Some (buffer, rest) \<Rightarrow> buffer @ copy_lines rest)"
  by pat_completeness auto
termination
  by (relation "measure length")
     (auto simp: fgets_def read_line_def BUFSIZ_def Let_def split: if_splits)

definition handle_cgi_request :: "env \<Rightarrow> Request \<Rightarrow> fault + (Status \<times> Request)" where
  "handle_cgi_request e r =
     (case (method r, uri r, path r) of
        (Some m, Some u, Some p) \<Rightarrow>
          (case popen e
                  ((case query r of None \<Rightarrow> [] | Some q \<Rightarrow> [(''QUERY_STRING'', q)]) @
                   [(''SCRIPT_FILENAME'', u), (''REQUEST_METHOD'', m),
                    (''REMOTE_ADDR'', host r), (''REQUEST_URI'', u),
                    (''REMOTE_PORT'', port r), (''DOCUMENT_ROOT'', p),
                    (''SERVER_PORT'', port r), (''HTTP_HOST'', host r),
                    (''HTTP_USER_AGENT'', u)])
                  p of
             None \<Rightarrow> Inr (HTTP_STATUS_INTERNAL_SERVER_ERROR, r)
           | Some pfs \<Rightarrow> Inr (HTTP_STATUS_OK, fprintf r (copy_lines pfs)))
      | _ \<Rightarrow> Inl NULL_ARGUMENT)"

text \<open>
  What every branch of the dispatch does with the status of its handler:
  \<open>if (result != HTTP_STATUS_OK) handle_error(r, result)\<close>.
\<close>

definition error_unless_ok :: "fault + (Status \<times> Request) \<Rightarrow> fault + (Status \<times> Request)" where
  "error_unless_ok x =
     (case x of
        Inl f \<Rightarrow> Inl f
      | Inr (result, r) \<Rightarrow>
          if result \<noteq> HTTP_STATUS_OK
          then (case handle_error r result of
                  Inl f \<Rightarrow> Inl f
                | Inr (s, r') \<Rightarrow> Inr (result, r'))
          else Inr (result, r))"

definition handle_request :: "env \<Rightarrow> Request \<Rightarrow> fault + (Status \<times> Request)" where
  "handle_request e r =
     (case parse_request r of
        Inl f \<Rightarrow> Inl f
      | Inr (rc, r1) \<Rightarrow>
          if rc < 0
          then error_unless_ok (Inr (HTTP_STATUS_BAD_REQUEST, r1))
          else (case uri r1 of
                  None \<Rightarrow> Inl NULL_ARGUMENT
                | Some u \<Rightarrow>
                    (case determine_request_path e u of
                       Inl f \<Rightarrow> Inl f
                     | Inr None \<Rightarrow>
                         error_unless_ok (Inr (HTTP_STATUS_NOT_FOUND, r1\<lparr>path := None\<rparr>))
                     | Inr (Some p) \<Rightarrow>
                         (case stat e p of
                            None \<Rightarrow> Inl UNINITIALISED_READ
                          | Some mode \<Rightarrow>
                              if mode = S_IFDIR
                              then error_unless_ok
                                     (handle_browse_request e (r1\<lparr>path := Some p\<rparr>))
                              else if access_X_OK e p
                              then error_unless_ok
                                     (handle_cgi_request e (r1\<lparr>path := Some p\<rparr>))
                              else if mode = S_IFREG
                              then error_unless_ok
                                     (handle_file_request e (r1\<lparr>path := Some p\<rparr>))
                              else error_unless_ok
                                     (Inr (HTTP_STATUS_BAD_REQUEST, r1\<lparr>path := Some p\<rparr>))))))"

section \<open>A file system to run the server on\<close>

text \<open>
  \<open>realpath\<close> on a tree of directories and files without symbolic links, the working
  directory being the root: the path is walked component by component, \<open>st\<close> being the
  names of the directory reached. A component is looked up in a directory only; an empty
  component and \<open>.\<close> stay, \<open>..\<close> goes to the parent, a name must exist.
\<close>

fun split_path :: "string \<Rightarrow> string list" where
  "split_path [] = [[]]"
| "split_path (c # cs) =
     (if c = CHR ''/'' then [] # split_path cs
      else (case split_path cs of [] \<Rightarrow> [[c]] | x # xs \<Rightarrow> (c # x) # xs))"

definition join_path :: "string list \<Rightarrow> string" where
  "join_path st = (if st = [] then ''/'' else concat (map (\<lambda>c. CHR ''/'' # c) st))"

fun walk :: "(string \<times> file_type) list \<Rightarrow> string list \<Rightarrow> string list \<Rightarrow> string list option" where
  "walk tree st [] = Some st"
| "walk tree st (c # cs) =
     (if map_of tree (join_path st) \<noteq> Some S_IFDIR then None
      else if c = [] \<or> c = ''.'' then walk tree st cs
      else if c = ''..'' then walk tree (butlast st) cs
      else if map_of tree (join_path (st @ [c])) = None then None
      else walk tree (st @ [c]) cs)"

definition tree_realpath :: "(string \<times> file_type) list \<Rightarrow> string \<Rightarrow> string option" where
  "tree_realpath tree p =
     (if p = [] then None else map_option join_path (walk tree [] (split_path p)))"

text \<open>
  The canonical path \<open>p\<close> is the directory \<open>root\<close> or lies below it: the names of
  \<open>root\<close> are the first names of \<open>p\<close>.
\<close>

definition descendant_or_equal :: "string \<Rightarrow> string \<Rightarrow> bool" where
  "descendant_or_equal root p =
     (take (length (filter (\<lambda>c. c \<noteq> []) (split_path root)))
           (filter (\<lambda>c. c \<noteq> []) (split_path p))
      = filter (\<lambda>c. c \<noteq> []) (split_path root))"

definition example_tree :: "(string \<times> file_type) list" where
  "example_tree =
     [(''/'', S_IFDIR), (''/etc'', S_IFDIR), (''/etc/mime.types'', S_IFREG),
      (''/srv'', S_IFDIR), (''/srv/www'', S_IFDIR),
      (''/srv/www/index.html'', S_IFREG), (''/srv/www/hello.html'', S_IFREG),
      (''/srv/www/archive.tar.gz'', S_IFREG), (''/srv/www/docs'', S_IFDIR),
      (''/srv/www-private'', S_IFDIR), (''/srv/www-private/secret.txt'', S_IFREG)]"

definition example_mime_types :: string where
  "example_mime_types =
     ''# MIME type rules'' @ [LF] @ [LF] @
     ''text/html'' @ [TAB, TAB] @ ''html htm'' @ [LF] @
     ''application/gzip'' @ [TAB] @ ''gz'' @ [LF] @
     ''application/x-tar'' @ [TAB] @ ''tar'' @ [LF]"

text \<open>
  The script \<open>hello.html\<close> is a regular file that the server may execute, with the
  extension of a page; every directory may be entered.
\<close>

definition example_env :: env where
  "example_env =
     \<lparr>RootPath = ''/srv/www'',
      MimeTypesPath = ''/etc/mime.types'',
      DefaultMimeType = ''text/plain'',
      realpath = tree_realpath example_tree,
      stat = map_of example_tree,
      access_X_OK = (\<lambda>p. map_of example_tree p = Some S_IFDIR \<or> p = ''/srv/www/hello.html''),
      readdir = map_of [(''/srv/www'',
                         [''index.html'', ''.'', ''docs'', ''..'', ''hello.html'',
                          ''archive.tar.gz'']),
                        (''/srv/www/docs'', [''..'', ''.''])],
      fopen = map_of [(''/etc/mime.types'', example_mime_types),
                      (''/srv/www/index.html'', ''<h1>It works</h1>''),
                      (''/srv/www/hello.html'', ''#!/bin/sh''),
                      (''/srv/www/archive.tar.gz'', ''archive''),
                      (''/srv/www-private/secret.txt'', ''secret'')],
      popen = (\<lambda>vars p. if p = ''/srv/www/hello.html''
                         then Some (''HTTP/1.0 200 OK'' @ CRLF @ CRLF @ ''hello'')
                         else None)\<rparr>"

text \<open>A request as \<open>accept_request\<close> returns it, with the bytes the client sent.\<close>

definition accepted :: "string \<Rightarrow> Request" where
  "accepted s =
     \<lparr>stream_in = s, stream_out = [], host = ''127.0.0.1'', port = ''40000'',
      method = None, uri = None, path = None, query = None, headers = []\<rparr>"

section \<open>The loops are unfolded on demand only\<close>

declare scan_mimetypes.simps [simp del]
declare read_headers.simps [simp del]
declare copy_chunks.simps [simp del]
declare copy_lines.simps [simp del]

section \<open>Lines and tokens\<close>

lemma takeWhile_not_in:
  "c \<notin> set pre \<Longrightarrow>
     takeWhile (\<lambda>x. x \<noteq> c) (pre @ rest) = pre @ takeWhile (\<lambda>x. x \<noteq> c) rest"
  by (induction pre) auto

lemma dropWhile_not_in:
  "c \<notin> set pre \<Longrightarrow>
     dropWhile (\<lambda>x. x \<noteq> c) (pre @ rest) = dropWhile (\<lambda>x. x \<noteq> c) rest"
  by (induction pre) auto

lemma dropWhile_neq_Nil: "(dropWhile (\<lambda>x. x \<noteq> c) s = []) = (c \<notin> set s)"
  by (induction s) auto

lemma dropWhile_takeWhile_append:
  "dropWhile P (takeWhile P xs @ ys) = dropWhile P ys"
  by (rule dropWhile_append2) (auto dest: set_takeWhileD)

lemma read_line_prefix:
  assumes "LF \<notin> set pre" and "length pre \<le> k"
  shows "\<exists>x. read_line k (pre @ rest) = pre @ x"
proof -
  have tw: "takeWhile (\<lambda>c. c \<noteq> LF) (pre @ rest) = pre @ takeWhile (\<lambda>c. c \<noteq> LF) rest"
    using assms(1) by (rule takeWhile_not_in)
  show ?thesis
    unfolding read_line_def Let_def tw using assms(2) by auto
qed

lemma c_str_prefix: "NUL \<notin> set pre \<Longrightarrow> c_str (pre @ x) = pre @ c_str x"
  by (simp add: c_str_def takeWhile_not_in)

lemma fgets_prefix:
  assumes "pre \<noteq> []" and "LF \<notin> set pre" and "NUL \<notin> set pre" and "length pre < BUFSIZ"
  shows "\<exists>x rest'. fgets BUFSIZ (pre @ rest) = Some (pre @ x, rest')"
proof -
  from assms(4) have "length pre \<le> BUFSIZ - 1" by simp
  from read_line_prefix [OF assms(2) this] obtain x
    where "read_line (BUFSIZ - 1) (pre @ rest) = pre @ x" by blast
  then show ?thesis
    using assms(1,3) by (simp add: fgets_def c_str_prefix)
qed

lemma fgets_line:
  assumes "LF \<notin> set l" and "NUL \<notin> set l" and "length l + 1 < BUFSIZ"
  shows "fgets BUFSIZ (l @ LF # rest) = Some (l @ [LF], rest)"
proof -
  have tw: "takeWhile (\<lambda>c. c \<noteq> LF) (l @ LF # rest) = l"
    using assms(1) by (simp add: takeWhile_not_in)
  have rl: "read_line (BUFSIZ - 1) (l @ LF # rest) = l @ [LF]"
    unfolding read_line_def Let_def tw using assms(3) by simp
  have "c_str (l @ [LF]) = l @ [LF]"
    using assms(2) by (simp add: c_str_prefix) (simp add: c_str_def)
  with rl show ?thesis by (simp add: fgets_def)
qed

lemma fgets_empty: "fgets BUFSIZ [] = None"
  by (simp add: fgets_def)

lemma fgets_CRLF: "fgets BUFSIZ (CR # LF # rest) = Some (CRLF, rest)"
  by (simp add: fgets_def BUFSIZ_def read_line_def c_str_def)

lemma fgets_LF: "fgets BUFSIZ (LF # rest) = Some ([LF], rest)"
  by (simp add: fgets_def BUFSIZ_def read_line_def c_str_def)

lemma strtok_token:
  assumes "tok \<noteq> []" and "set tok \<inter> set delim = {}" and "d \<in> set delim"
  shows "strtok (tok @ d # y) delim = (Some tok, y)"
proof -
  obtain c cs where tok: "tok = c # cs" using assms(1) by (cases tok) auto
  have c: "c \<notin> set delim" using assms(2) tok by auto
  have cs: "\<forall>x\<in>set cs. x \<notin> set delim" using assms(2) tok by auto
  have 1: "dropWhile (\<lambda>c. c \<in> set delim) (tok @ d # y) = c # (cs @ d # y)"
    using c tok by simp
  have 2: "takeWhile (\<lambda>c. c \<notin> set delim) (c # (cs @ d # y)) = tok"
    using c cs tok assms(3) by (simp add: takeWhile_append2)
  have 3: "dropWhile (\<lambda>c. c \<notin> set delim) (c # (cs @ d # y)) = d # y"
    using c cs assms(3) by (simp add: dropWhile_append2)
  show ?thesis
    unfolding strtok_def 1 using 2 3 by simp
qed

lemma strtok_whole:
  assumes "tok \<noteq> []" and "set tok \<inter> set delim = {}"
  shows "strtok tok delim = (Some tok, [])"
proof -
  obtain c cs where tok: "tok = c # cs" using assms(1) by (cases tok) auto
  have c: "c \<notin> set delim" using assms(2) tok by auto
  have cs: "\<forall>x\<in>set cs. x \<notin> set delim" using assms(2) tok by auto
  have 1: "dropWhile (\<lambda>c. c \<in> set delim) tok = c # cs"
    using c tok by simp
  have 2: "takeWhile (\<lambda>c. c \<notin> set delim) (c # cs) = tok"
    using c cs tok by simp
  have 3: "dropWhile (\<lambda>c. c \<notin> set delim) (c # cs) = []"
    using c cs by simp
  show ?thesis
    unfolding strtok_def 1 using 2 3 by simp
qed

lemma strtok_empty: "strtok [] delim = (None, [])"
  by (simp add: strtok_def)

lemma strtok_buffer_token:
  assumes "strtok (snd (strtok b delim)) delim = (Some tok, save)"
  shows "\<exists>first save'. strtok (strtok_buffer b delim) delim = (Some first, save')
           \<and> fst (strtok b delim) = Some first"
proof (cases "dropWhile (\<lambda>c. c \<in> set delim) b")
  case Nil
  have "strtok b delim = (None, [])" unfolding strtok_def Nil by simp
  then have "strtok (snd (strtok b delim)) delim = (None, [])" by (simp add: strtok_def)
  with assms show ?thesis by simp
next
  case (Cons t ts)
  then have t: "t \<notin> set delim"
    by (metis dropWhile_eq_Cons_conv)
  have "dropWhile (\<lambda>c. c \<in> set delim) (strtok_buffer b delim)
          = t # takeWhile (\<lambda>c. c \<notin> set delim) ts"
    unfolding strtok_buffer_def Cons dropWhile_takeWhile_append
    using t by simp
  then have 1: "strtok (strtok_buffer b delim) delim
      = (Some (takeWhile (\<lambda>c. c \<notin> set delim) (t # takeWhile (\<lambda>c. c \<notin> set delim) ts)),
         drop 1 (dropWhile (\<lambda>c. c \<notin> set delim) (t # takeWhile (\<lambda>c. c \<notin> set delim) ts)))"
    unfolding strtok_def by simp
  have 2: "strtok b delim = (Some (takeWhile (\<lambda>c. c \<notin> set delim) (t # ts)),
                  drop 1 (dropWhile (\<lambda>c. c \<notin> set delim) (t # ts)))"
    unfolding strtok_def Cons by simp
  have 3: "takeWhile (\<lambda>c. c \<notin> set delim) (t # takeWhile (\<lambda>c. c \<notin> set delim) ts)
         = takeWhile (\<lambda>c. c \<notin> set delim) (t # ts)"
    using t by simp
  from 1 2 3 show ?thesis by simp
qed

lemma strchr_eq:
  "strchr s c = (if c \<in> set s then Some (dropWhile (\<lambda>x. x \<noteq> c) s) else None)"
proof (cases "dropWhile (\<lambda>x. x \<noteq> c) s")
  case Nil
  then have "c \<notin> set s" by (metis dropWhile_neq_Nil)
  then show ?thesis unfolding strchr_def Nil by simp
next
  case (Cons a as)
  then have "c \<in> set s" using dropWhile_neq_Nil [of c s] by simp
  then show ?thesis unfolding strchr_def Cons by simp
qed

section \<open>Status lines and the error page\<close>

text \<open>
  Claim C10. \<open>http_status_string\<close> gives each of the four members of \<open>Status\<close> its own
  status line, "200 OK", "400 Bad Request", "404 Not Found" and
  "500 Internal Server Error"; it returns \<open>NULL\<close> exactly for the arguments that are no
  member; and the fifth entry of its table, "418 I'm A Teapot", is the result for no argument.
\<close>

theorem http_status_string_table:
  "http_status_string (Status_value HTTP_STATUS_OK) = Some ''200 OK''
   \<and> http_status_string (Status_value HTTP_STATUS_BAD_REQUEST) = Some ''400 Bad Request''
   \<and> http_status_string (Status_value HTTP_STATUS_NOT_FOUND) = Some ''404 Not Found''
   \<and> http_status_string (Status_value HTTP_STATUS_INTERNAL_SERVER_ERROR)
       = Some ''500 Internal Server Error''
   \<and> (http_status_string n = None) = (n \<notin> range Status_value)
   \<and> http_status_string n \<noteq> Some ''418 I'm A Teapot''"
proof -
  have r: "range Status_value = {0, 1, 2, 3}"
  proof
    show "range Status_value \<subseteq> {0, 1, 2, 3}"
    proof
      fix x assume "x \<in> range Status_value"
      then obtain s where "x = Status_value s" by blast
      then show "x \<in> {0, 1, 2, 3}" by (cases s) simp_all
    qed
    have "Status_value HTTP_STATUS_OK \<in> range Status_value"
      "Status_value HTTP_STATUS_BAD_REQUEST \<in> range Status_value"
      "Status_value HTTP_STATUS_NOT_FOUND \<in> range Status_value"
      "Status_value HTTP_STATUS_INTERNAL_SERVER_ERROR \<in> range Status_value"
      by blast+
    then show "{0, 1, 2, 3} \<subseteq> range Status_value" by simp
  qed
  show ?thesis
    unfolding r by (simp add: http_status_string_def StatusStrings_def)
qed

theorem http_status_string_table_witness:
  "http_status_string 2 = Some ''404 Not Found'' \<and> http_status_string 200 = None
   \<and> http_status_string 4 = None"
  using http_status_string_table [of 200] http_status_string_table [of 4]
  by (simp add: http_status_string_def StatusStrings_def)

text \<open>
  Claim C9. For each of the statuses \<open>BAD_REQUEST\<close>, \<open>NOT_FOUND\<close> and
  \<open>INTERNAL_SERVER_ERROR\<close>, \<open>handle_error\<close> returns the status and appends to the stream the
  status line \<open>HTTP/1.0\<close> with the code and the fixed reason of that status, the header
  \<open>Content-Type: text/html\<close>, an empty line, and a page of HTML that names the status.
\<close>

theorem handle_error_response:
  "handle_error r HTTP_STATUS_BAD_REQUEST =
     Inr (HTTP_STATUS_BAD_REQUEST,
          r\<lparr>stream_out := stream_out r @
             ''HTTP/1.0 400 Bad Request'' @ CRLF @
             ''Content-Type: text/html'' @ CRLF @
             CRLF @
             ''<html><body><h1><strong>400 Bad Request</strong></h1><h2>Good Try!</h2>'' @
             ''<center><img src='' @ [DQ] @
             ''https://www.dailydot.com/wp-content/uploads/2019/04/winnie-the-pooh-1024x512.jpg'' @
             [DQ] @ ''></center></html></body>''\<rparr>)
   \<and> handle_error r HTTP_STATUS_NOT_FOUND =
     Inr (HTTP_STATUS_NOT_FOUND,
          r\<lparr>stream_out := stream_out r @
             ''HTTP/1.0 404 Not Found'' @ CRLF @
             ''Content-Type: text/html'' @ CRLF @
             CRLF @
             ''<html><body><h1><strong>404 Not Found</strong></h1><h2>Good Try!</h2>'' @
             ''<center><img src='' @ [DQ] @
             ''https://www.dailydot.com/wp-content/uploads/2019/04/winnie-the-pooh-1024x512.jpg'' @
             [DQ] @ ''></center></html></body>''\<rparr>)
   \<and> handle_error r HTTP_STATUS_INTERNAL_SERVER_ERROR =
     Inr (HTTP_STATUS_INTERNAL_SERVER_ERROR,
          r\<lparr>stream_out := stream_out r @
             ''HTTP/1.0 500 Internal Server Error'' @ CRLF @
             ''Content-Type: text/html'' @ CRLF @
             CRLF @
             ''<html><body><h1><strong>500 Internal Server Error</strong></h1><h2>Good Try!</h2>'' @
             ''<center><img src='' @ [DQ] @
             ''https://www.dailydot.com/wp-content/uploads/2019/04/winnie-the-pooh-1024x512.jpg'' @
             [DQ] @ ''></center></html></body>''\<rparr>)"
  by (simp add: handle_error_def http_status_string_def StatusStrings_def fprintf_def)

theorem handle_error_response_witness:
  "take 24 (stream_out (snd (projr (handle_error (accepted []) HTTP_STATUS_NOT_FOUND))))
     = ''HTTP/1.0 404 Not Found'' @ CRLF"
  using handle_error_response [of "accepted []"]
  by (simp add: accepted_def)

section \<open>The listing of a directory\<close>

lemma browse_entries_eq:
  "browse_entries u ds =
     concat (map (\<lambda>d. ''<li><a href='' @ [DQ] @ (if u = ''/'' then ''/'' @ d else u @ ''/'' @ d)
                       @ [DQ] @ ''>'' @ d @ ''</a></li>'' @ [LF])
                 (filter (\<lambda>d. d \<noteq> ''.'') ds))"
  by (induction ds) (auto simp: streq_def)

text \<open>
  Claim C8. When the directory of the request is scanned, \<open>handle_browse_request\<close> answers
  200 with one anchor for each name of the directory other than \<open>.\<close>, in the sorted order
  of the scan; the link of a name is \<open>/name\<close> when the request URI is \<open>/\<close> and the URI,
  a slash and the name otherwise. As no name in a directory holds a slash, no link at the
  URI \<open>/\<close> begins with two slashes.
\<close>

theorem handle_browse_request_listing:
  assumes "path r = Some p" and "uri r = Some u" and "readdir e p = Some names"
    and "\<forall>d\<in>set names. CHR ''/'' \<notin> set d"
  shows "handle_browse_request e r =
           Inr (HTTP_STATUS_OK,
                r\<lparr>stream_out := stream_out r @
                   ''HTTP/1.0 200 OK'' @ CRLF @ ''Content-Type: text/html'' @ CRLF @ CRLF @
                   ''<ul>'' @ [LF] @
                   concat (map (\<lambda>d. ''<li><a href='' @ [DQ] @
                                     (if u = ''/'' then ''/'' @ d else u @ ''/'' @ d) @
                                     [DQ] @ ''>'' @ d @ ''</a></li>'' @ [LF])
                               (filter (\<lambda>d. d \<noteq> ''.'') (sort names))) @
                   ''</ul>'' @ [LF]\<rparr>)
         \<and> sorted (filter (\<lambda>d. d \<noteq> ''.'') (sort names))
         \<and> mset (filter (\<lambda>d. d \<noteq> ''.'') (sort names)) = filter_mset (\<lambda>d. d \<noteq> ''.'') (mset names)
         \<and> (\<forall>d\<in>set (filter (\<lambda>d. d \<noteq> ''.'') (sort names)). take 2 (''/'' @ d) \<noteq> ''//'')"
proof -
  have "scandir e p = Some (sort names)"
    using assms(3) by (simp add: scandir_def)
  then have 1: "handle_browse_request e r =
           Inr (HTTP_STATUS_OK,
                r\<lparr>stream_out := stream_out r @
                   ''HTTP/1.0 200 OK'' @ CRLF @ ''Content-Type: text/html'' @ CRLF @ CRLF @
                   ''<ul>'' @ [LF] @
                   concat (map (\<lambda>d. ''<li><a href='' @ [DQ] @
                                     (if u = ''/'' then ''/'' @ d else u @ ''/'' @ d) @
                                     [DQ] @ ''>'' @ d @ ''</a></li>'' @ [LF])
                               (filter (\<lambda>d. d \<noteq> ''.'') (sort names))) @
                   ''</ul>'' @ [LF]\<rparr>)"
    using assms(1,2) by (simp add: handle_browse_request_def fprintf_def browse_entries_eq)
  have 2: "sorted (filter (\<lambda>d. d \<noteq> ''.'') (sort names))"
    by (simp add: sorted_wrt_filter)
  have 3: "mset (filter (\<lambda>d. d \<noteq> ''.'') (sort names)) = filter_mset (\<lambda>d. d \<noteq> ''.'') (mset names)"
    by simp
  have 4: "\<forall>d\<in>set (filter (\<lambda>d. d \<noteq> ''.'') (sort names)). take 2 (''/'' @ d) \<noteq> ''//''"
  proof
    fix d assume "d \<in> set (filter (\<lambda>d. d \<noteq> ''.'') (sort names))"
    then have "CHR ''/'' \<notin> set d" using assms(4) by simp
    then show "take 2 (''/'' @ d) \<noteq> ''//''" by (cases d) auto
  qed
  from 1 2 3 4 show ?thesis by blast
qed

theorem handle_browse_request_listing_witness:
  "handle_browse_request example_env ((accepted [])\<lparr>uri := Some ''/'', path := Some ''/srv/www''\<rparr>) =
     Inr (HTTP_STATUS_OK,
          (accepted [])\<lparr>uri := Some ''/'', path := Some ''/srv/www'',
            stream_out :=
              ''HTTP/1.0 200 OK'' @ CRLF @ ''Content-Type: text/html'' @ CRLF @ CRLF @
              ''<ul>'' @ [LF] @
              ''<li><a href='' @ [DQ] @ ''/..'' @ [DQ] @ ''>..</a></li>'' @ [LF] @
              ''<li><a href='' @ [DQ] @ ''/archive.tar.gz'' @ [DQ] @ ''>archive.tar.gz</a></li>'' @ [LF] @
              ''<li><a href='' @ [DQ] @ ''/docs'' @ [DQ] @ ''>docs</a></li>'' @ [LF] @
              ''<li><a href='' @ [DQ] @ ''/hello.html'' @ [DQ] @ ''>hello.html</a></li>'' @ [LF] @
              ''<li><a href='' @ [DQ] @ ''/index.html'' @ [DQ] @ ''>index.html</a></li>'' @ [LF] @
              ''</ul>'' @ [LF]\<rparr>)"
  using handle_browse_request_listing
          [of "(accepted [])\<lparr>uri := Some ''/'', path := Some ''/srv/www''\<rparr>" "''/srv/www''" "''/''"
              example_env
              "[''index.html'', ''.'', ''docs'', ''..'', ''hello.html'', ''archive.tar.gz'']"]
  by (simp add: example_env_def accepted_def)

section \<open>The request line\<close>

text \<open>
  A request line that begins with a method, a blank, a target and a blank, both tokens free
  of whitespace and of the byte 0 and short enough for the buffer: the method is stored, the
  target is cut at its first question mark into URI and query, and later question marks stay
  in the query. Only when nothing precedes the question mark is there no URI to store.
\<close>

lemma parse_request_method_line:
  assumes s: "stream_in r = m @ '' '' @ t @ '' '' @ rest"
    and m: "m \<noteq> []" "set m \<inter> set WHITESPACE = {}" "NUL \<notin> set m"
    and t: "t \<noteq> []" "set t \<inter> set WHITESPACE = {}" "NUL \<notin> set t"
    and len: "length m + length t + 2 < BUFSIZ"
  shows "\<exists>rest'. parse_request_method r =
           (if takeWhile (\<lambda>c. c \<noteq> CHR ''?'') t = [] then Inl NULL_ARGUMENT
            else Inr (0, r\<lparr>stream_in := rest', method := Some m,
                            uri := Some (takeWhile (\<lambda>c. c \<noteq> CHR ''?'') t),
                            query := Some (drop 1 (dropWhile (\<lambda>c. c \<noteq> CHR ''?'') t))\<rparr>))"
proof -
  let ?pre = "m @ '' '' @ t @ '' ''"
  have sp: "CHR '' '' \<in> set WHITESPACE" and lf: "LF \<in> set WHITESPACE"
    by (simp_all add: WHITESPACE_def)
  have "LF \<notin> set ?pre" using m(2) t(2) lf by auto
  moreover have "NUL \<notin> set ?pre" using m(3) t(3) by simp
  moreover have "length ?pre < BUFSIZ" using len by simp
  moreover have "?pre \<noteq> []" by simp
  ultimately obtain x rest' where "fgets BUFSIZ (?pre @ rest) = Some (?pre @ x, rest')"
    using fgets_prefix [of ?pre rest] by blast
  then have fg: "fgets BUFSIZ (stream_in r) = Some (m @ CHR '' '' # (t @ CHR '' '' # x), rest')"
    using s by simp
  have t1: "strtok (m @ CHR '' '' # (t @ CHR '' '' # x)) WHITESPACE = (Some m, t @ CHR '' '' # x)"
    by (rule strtok_token [OF m(1) m(2) sp])
  have t2: "strtok (t @ CHR '' '' # x) WHITESPACE = (Some t, x)"
    by (rule strtok_token [OF t(1) t(2) sp])
  note pm = parse_request_method_def fg t1 t2 strchr_eq
  have "parse_request_method r =
           (if takeWhile (\<lambda>c. c \<noteq> CHR ''?'') t = [] then Inl NULL_ARGUMENT
            else Inr (0, r\<lparr>stream_in := rest', method := Some m,
                            uri := Some (takeWhile (\<lambda>c. c \<noteq> CHR ''?'') t),
                            query := Some (drop 1 (dropWhile (\<lambda>c. c \<noteq> CHR ''?'') t))\<rparr>))"
  proof (cases "CHR ''?'' \<in> set t")
    case False
    have tw: "takeWhile (\<lambda>c. c \<noteq> CHR ''?'') t = t"
      using False takeWhile_not_in [of "CHR ''?''" t "[]"] by simp
    have dw: "dropWhile (\<lambda>c. c \<noteq> CHR ''?'') t = []"
      using False by (metis dropWhile_neq_Nil)
    show ?thesis
      unfolding tw dw using False t(1) by (simp add: pm)
  next
    case True
    show ?thesis
    proof (cases "takeWhile (\<lambda>c. c \<noteq> CHR ''?'') t = []")
      case e: True
      show ?thesis
        unfolding e using True by (simp add: pm e strtok_empty)
    next
      case ne: False
      have "set (takeWhile (\<lambda>c. c \<noteq> CHR ''?'') t) \<inter> set ''?'' = {}"
        by (auto dest: set_takeWhileD)
      from strtok_whole [OF ne this] True ne show ?thesis
        by (simp add: pm)
    qed
  qed
  then show ?thesis by blast
qed

text \<open>
  At the end of the stream, and for a line with a method and nothing else, the result is
  -1, and \<open>handle_request\<close> answers a failed parse with the page of \<open>BAD_REQUEST\<close>.
\<close>

lemma parse_request_method_end_of_stream:
  "stream_in r = [] \<Longrightarrow> parse_request_method r = Inr (- 1, r)"
  by (simp add: parse_request_method_def fgets_def)

lemma parse_request_method_no_target:
  assumes s: "stream_in r = m @ LF # rest"
    and m: "m \<noteq> []" "set m \<inter> set WHITESPACE = {}" "NUL \<notin> set m"
    and len: "length m + 1 < BUFSIZ"
  shows "parse_request_method r = Inr (- 1, r\<lparr>stream_in := rest, method := Some m\<rparr>)"
proof -
  have lf: "LF \<in> set WHITESPACE" by (simp add: WHITESPACE_def)
  have "LF \<notin> set m" using m(2) lf by auto
  then have tw: "takeWhile (\<lambda>c. c \<noteq> LF) (m @ LF # rest) = m"
    by (simp add: takeWhile_not_in)
  have rl: "read_line (BUFSIZ - 1) (m @ LF # rest) = m @ [LF]"
    unfolding read_line_def Let_def tw using len by simp
  have "c_str (m @ [LF]) = m @ [LF]"
    using m(3) by (simp add: c_str_prefix) (simp add: c_str_def)
  with rl have fg: "fgets BUFSIZ (stream_in r) = Some (m @ [LF], rest)"
    using s by (simp add: fgets_def)
  have t1: "strtok (m @ [LF]) WHITESPACE = (Some m, [])"
    using strtok_token [OF m(1) m(2) lf, of "[]"] by simp
  from fg t1 show ?thesis
    by (simp add: parse_request_method_def strtok_empty)
qed

lemma handle_request_parse_failure:
  assumes "parse_request_method r = Inr (- 1, r1)"
  shows "handle_request e r =
           Inr (HTTP_STATUS_BAD_REQUEST,
                r1\<lparr>stream_out := stream_out r1 @
                   ''HTTP/1.0 400 Bad Request'' @ CRLF @
                   ''Content-Type: text/html'' @ CRLF @
                   CRLF @
                   ''<html><body><h1><strong>400 Bad Request</strong></h1><h2>Good Try!</h2>'' @
                   ''<center><img src='' @ [DQ] @
                   ''https://www.dailydot.com/wp-content/uploads/2019/04/winnie-the-pooh-1024x512.jpg'' @
                   [DQ] @ ''></center></html></body>''\<rparr>)"
proof -
  have 1: "parse_request r = Inr (- 1, r1)"
    using assms by (simp add: parse_request_def)
  then have 2: "handle_request e r = error_unless_ok (Inr (HTTP_STATUS_BAD_REQUEST, r1))"
    by (simp add: handle_request_def)
  show ?thesis
    unfolding 2
    by (simp add: error_unless_ok_def handle_error_def http_status_string_def StatusStrings_def
        fprintf_def)
qed

text \<open>
  Claim C4. For the request line \<open>GET ?a=b HTTP/1.0\<close>, whose target begins with the
  question mark, \<open>parse_request_method\<close> hands the \<open>NULL\<close> that \<open>strtok\<close> returns for the
  empty text before the question mark to \<open>strdup\<close>: no URI is stored, and
  \<open>handle_request\<close> does not get to answer.
\<close>

theorem parse_request_method_empty_uri:
  "parse_request_method (accepted (''GET ?a=b HTTP/1.0'' @ CRLF @ ''Host: example'' @ CRLF @ CRLF))
     = Inl NULL_ARGUMENT
   \<and> handle_request example_env
        (accepted (''GET ?a=b HTTP/1.0'' @ CRLF @ ''Host: example'' @ CRLF @ CRLF))
     = Inl NULL_ARGUMENT"
  by code_simp

text \<open>
  Claim C6. For a first line that holds a line feed only, or blanks and a line feed,
  \<open>parse_request_method\<close> hands the \<open>NULL\<close> that \<open>strtok\<close> returns for a line without
  a token to \<open>strdup\<close>: it does not return -1, and \<open>handle_request\<close> does not get to
  answer with \<open>BAD_REQUEST\<close>.
\<close>

theorem parse_request_method_blank_line:
  "parse_request_method (accepted [LF]) = Inl NULL_ARGUMENT
   \<and> parse_request_method (accepted ('' '' @ [LF])) = Inl NULL_ARGUMENT
   \<and> handle_request example_env (accepted [LF]) = Inl NULL_ARGUMENT"
  by code_simp

section \<open>The headers of a request\<close>

text \<open>
  One turn of the loop: a line with one colon gives a header with the text before the colon as
  name and the text after it, without leading whitespace and the end of the line, as value; a
  line with a second colon gives the text between the colons as value; a line of more than
  two bytes without a colon leaves the loop by \<open>goto fail\<close>.
\<close>

lemma read_headers_end: "read_headers [] hs = (True, [], hs)"
  by (subst read_headers.simps) (simp add: fgets_empty)

lemma read_headers_CRLF: "read_headers (CR # LF # rest) hs = (True, rest, hs)"
  by (subst read_headers.simps) (simp add: fgets_CRLF)

lemma read_headers_LF: "read_headers (LF # rest) hs = (True, rest, hs)"
  by (subst read_headers.simps) (simp add: fgets_LF)

lemma read_headers_one_colon:
  assumes n: "n \<noteq> []" "CHR '':'' \<notin> set n" "LF \<notin> set n" "NUL \<notin> set n"
    and v: "CHR '':'' \<notin> set v" "LF \<notin> set v" "NUL \<notin> set v"
    and len: "length n + length v + 2 < BUFSIZ"
  shows "read_headers (n @ '':'' @ v @ LF # rest) hs =
           read_headers rest (hs @ [\<lparr>name = n, data = chomp (skip_whitespace (v @ [LF]))\<rparr>])"
proof -
  have "fgets BUFSIZ ((n @ '':'' @ v) @ LF # rest) = Some ((n @ '':'' @ v) @ [LF], rest)"
    using n v len by (intro fgets_line) auto
  then have fg: "fgets BUFSIZ (n @ '':'' @ v @ LF # rest) = Some (n @ CHR '':'' # (v @ [LF]), rest)"
    by simp
  have t1: "strtok (n @ CHR '':'' # (v @ [LF])) '':'' = (Some n, v @ [LF])"
    using n by (intro strtok_token) auto
  have t2: "strtok (v @ [LF]) '':'' = (Some (v @ [LF]), [])"
    using v by (intro strtok_whole) auto
  have "2 < length (n @ CHR '':'' # (v @ [LF]))"
    using n(1) by (cases n) auto
  with fg t1 t2 show ?thesis
    by (subst read_headers.simps) simp
qed

lemma read_headers_two_colons:
  assumes n: "n \<noteq> []" "CHR '':'' \<notin> set n" "LF \<notin> set n" "NUL \<notin> set n"
    and v: "v \<noteq> []" "CHR '':'' \<notin> set v" "LF \<notin> set v" "NUL \<notin> set v"
    and w: "LF \<notin> set w" "NUL \<notin> set w"
    and len: "length n + length v + length w + 3 < BUFSIZ"
  shows "read_headers (n @ '':'' @ v @ '':'' @ w @ LF # rest) hs =
           read_headers rest (hs @ [\<lparr>name = n, data = chomp (skip_whitespace v)\<rparr>])"
proof -
  have "fgets BUFSIZ ((n @ '':'' @ v @ '':'' @ w) @ LF # rest)
          = Some ((n @ '':'' @ v @ '':'' @ w) @ [LF], rest)"
    using n v w len by (intro fgets_line) auto
  then have fg: "fgets BUFSIZ (n @ '':'' @ v @ '':'' @ w @ LF # rest)
          = Some (n @ CHR '':'' # (v @ CHR '':'' # (w @ [LF])), rest)"
    by simp
  have t1: "strtok (n @ CHR '':'' # (v @ CHR '':'' # (w @ [LF]))) '':''
              = (Some n, v @ CHR '':'' # (w @ [LF]))"
    using n by (intro strtok_token) auto
  have t2: "strtok (v @ CHR '':'' # (w @ [LF])) '':'' = (Some v, w @ [LF])"
    using v by (intro strtok_token) auto
  have "2 < length (n @ CHR '':'' # (v @ CHR '':'' # (w @ [LF])))"
    using n(1) v(1) by (cases n; cases v) auto
  with fg t1 t2 show ?thesis
    by (subst read_headers.simps) simp
qed

lemma read_headers_no_colon:
  assumes l: "CHR '':'' \<notin> set l" "LF \<notin> set l" "NUL \<notin> set l"
    and len: "2 \<le> length l" "length l + 1 < BUFSIZ"
  shows "read_headers (l @ LF # rest) hs = (False, rest, hs)"
proof -
  have fg: "fgets BUFSIZ (l @ LF # rest) = Some (l @ [LF], rest)"
    using l len by (intro fgets_line) auto
  have t1: "strtok (l @ [LF]) '':'' = (Some (l @ [LF]), [])"
    using l by (intro strtok_whole) auto
  from fg t1 len(1) show ?thesis
    by (subst read_headers.simps) (simp add: strtok_empty)
qed

lemma parse_request_headers_no_colon:
  assumes "stream_in r = l @ LF # rest"
    and "CHR '':'' \<notin> set l" "LF \<notin> set l" "NUL \<notin> set l"
    and "2 \<le> length l" "length l + 1 < BUFSIZ"
  shows "parse_request_headers r = (- 1, r\<lparr>stream_in := rest\<rparr>)"
  using assms read_headers_no_colon [of l rest "[]"]
  by (simp add: parse_request_headers_def)

text \<open>
  Claim C7. On a request as \<open>accept_request\<close> leaves it, with no header linked,
  \<open>parse_request_headers\<close> fails with -1 when the stream ends or holds an empty line where
  the headers should start, and whenever its loop has linked no header; when it returns 0,
  the request has the headers the loop linked, and at least one. It returns nothing but 0
  and -1.
\<close>

theorem parse_request_headers_zero_headers:
  assumes "headers r = []"
  shows "((stream_in r = [] \<or> (\<exists>rest. stream_in r = CRLF @ rest) \<or> (\<exists>rest. stream_in r = LF # rest))
            \<longrightarrow> fst (parse_request_headers r) = - 1)
         \<and> (snd (snd (read_headers (stream_in r) [])) = []
            \<longrightarrow> fst (parse_request_headers r) = - 1)
         \<and> (fst (parse_request_headers r) = 0
            \<longrightarrow> headers (snd (parse_request_headers r)) \<noteq> []
                \<and> headers (snd (parse_request_headers r)) = snd (snd (read_headers (stream_in r) [])))
         \<and> (fst (parse_request_headers r) = 0 \<or> fst (parse_request_headers r) = - 1)"
proof -
  obtain ok rest hs where rh: "read_headers (stream_in r) [] = (ok, rest, hs)"
    by (cases "read_headers (stream_in r) []") auto
  have zero: "hs = [] \<Longrightarrow> fst (parse_request_headers r) = - 1"
    using assms rh by (simp add: parse_request_headers_def Let_def)
  have blank: "stream_in r = [] \<or> (\<exists>rest. stream_in r = CRLF @ rest) \<or> (\<exists>rest. stream_in r = LF # rest)
      \<Longrightarrow> hs = []"
    using rh by (auto simp: read_headers_end read_headers_CRLF read_headers_LF)
  have ok: "fst (parse_request_headers r) = 0 \<Longrightarrow>
      headers (snd (parse_request_headers r)) \<noteq> [] \<and> headers (snd (parse_request_headers r)) = hs"
    using assms rh by (auto simp: parse_request_headers_def Let_def split: if_splits)
  have either: "fst (parse_request_headers r) = 0 \<or> fst (parse_request_headers r) = - 1"
    using rh by (simp add: parse_request_headers_def Let_def)
  from zero blank ok either rh show ?thesis by auto
qed

theorem parse_request_headers_zero_headers_witness:
  "fst (parse_request_headers (accepted CRLF)) = - 1
   \<and> fst (parse_request_headers (accepted [])) = - 1
   \<and> fst (parse_request_headers (accepted (''Host: example'' @ CRLF @ CRLF))) = 0
   \<and> headers (snd (parse_request_headers (accepted (''Host: example'' @ CRLF @ CRLF))))
       = [\<lparr>name = ''Host'', data = ''example''\<rparr>]"
proof -
  have 1: "fst (parse_request_headers (accepted CRLF)) = - 1"
    using parse_request_headers_zero_headers [of "accepted CRLF"]
    by (simp add: accepted_def)
  have 2: "fst (parse_request_headers (accepted [])) = - 1"
    using parse_request_headers_zero_headers [of "accepted []"]
    by (simp add: accepted_def)
  have 3: "read_headers (''Host: example'' @ CRLF @ CRLF) [] = (True, [], [\<lparr>name = ''Host'', data = ''example''\<rparr>])"
    by code_simp
  have 4: "fst (parse_request_headers (accepted (''Host: example'' @ CRLF @ CRLF))) = 0"
    using 3 by (simp add: parse_request_headers_def accepted_def Let_def)
  from 1 2 3 4 parse_request_headers_zero_headers [of "accepted (''Host: example'' @ CRLF @ CRLF)"]
  show ?thesis by (simp add: accepted_def)
qed

text \<open>
  Claim C3. The header line \<open>Host: localhost:8888\<close> is accepted, and the value stored
  for it is \<open>localhost\<close>: the second \<open>strtok\<close> ends the value at the second colon, so the
  value is not everything after the first colon.
\<close>

theorem parse_request_headers_cuts_value:
  "parse_request_headers (accepted (''Host: localhost:8888'' @ CRLF @ CRLF))
     = (0, (accepted [])\<lparr>headers := [\<lparr>name = ''Host'', data = ''localhost''\<rparr>]\<rparr>)"
  by code_simp

section \<open>The type of a file\<close>

text \<open>
  The scan of the rules never hands \<open>NULL\<close> to \<open>strdup\<close>: where a line has a second
  token it has a first. So \<open>determine_mimetype\<close> returns a type for every path with a
  slash, as the paths of \<open>realpath\<close> are.
\<close>

lemma scan_mimetypes_no_fault: "\<exists>res. scan_mimetypes fs ext = Inr res"
proof (induction fs ext rule: scan_mimetypes.induct)
  case (1 fs ext)
  show ?case
  proof (cases "fgets BUFSIZ fs")
    case None
    then show ?thesis by (subst scan_mimetypes.simps) simp
  next
    case (Some a)
    obtain buffer rest where a: "a = (buffer, rest)" by (cases a)
    note fg = Some [unfolded a]
    show ?thesis
    proof (cases buffer)
      case Nil
      from 1(1) [OF fg refl Nil] fg Nil show ?thesis
        by (subst scan_mimetypes.simps) simp
    next
      case (Cons c cs)
      show ?thesis
      proof (cases "c = CHR ''#'' \<or> c = LF")
        case True
        from 1(2) [OF fg refl Cons True] fg Cons True show ?thesis
          by (subst scan_mimetypes.simps) simp
      next
        case False
        obtain tok save where s2: "(tok, save) = strtok (snd (strtok buffer WHITESPACE)) WHITESPACE"
          by (cases "strtok (snd (strtok buffer WHITESPACE)) WHITESPACE") simp
        show ?thesis
        proof (cases tok)
          case None
          from 1(3) [OF fg refl Cons False s2 None] fg Cons False s2 [symmetric] None
          show ?thesis
            by (subst scan_mimetypes.simps) simp
        next
          case (Some token)
          note tk = Some
          show ?thesis
          proof (cases "streq token ext")
            case True
            from strtok_buffer_token [of buffer WHITESPACE token save] s2 tk obtain first save'
              where "strtok (strtok_buffer buffer WHITESPACE) WHITESPACE = (Some first, save')"
              by auto
            with fg Cons False s2 [symmetric] tk True show ?thesis
              by (subst scan_mimetypes.simps) simp
          next
            case f: False
            from 1(4) [OF fg refl Cons False s2 tk f] fg Cons False s2 [symmetric] tk f
            show ?thesis
              by (subst scan_mimetypes.simps) simp
          qed
        qed
      qed
    qed
  qed
qed

lemma determine_mimetype_returns:
  assumes "CHR ''/'' \<in> set p"
  shows "\<exists>mimetype. determine_mimetype e p = Inr mimetype"
proof -
  obtain ext0 where 0: "strrchr p (CHR ''/'') = Some ext0"
    using assms by (simp add: strrchr_def)
  show ?thesis
  proof (cases "strchr ext0 (CHR ''.'')")
    case None
    with 0 show ?thesis by (simp add: determine_mimetype_def)
  next
    case (Some ext1)
    show ?thesis
    proof (cases "fopen e (MimeTypesPath e)")
      case None
      with 0 Some show ?thesis by (simp add: determine_mimetype_def)
    next
      case (Some fs)
      obtain res where "scan_mimetypes fs (drop 1 ext1) = Inr res"
        using scan_mimetypes_no_fault by blast
      with 0 \<open>strchr ext0 (CHR ''.'') = Some ext1\<close> Some show ?thesis
        by (cases res) (simp_all add: determine_mimetype_def)
    qed
  qed
qed

text \<open>
  Claim C5. For the file \<open>archive.tar.gz\<close>, \<open>determine_mimetype\<close> returns the default
  type although the rules have a line for the extension \<open>gz\<close>: it looks the rules up
  with \<open>tar.gz\<close>, what follows the first dot of the file name, not the last.
\<close>

theorem determine_mimetype_first_dot:
  "determine_mimetype example_env ''/srv/www/archive.tar.gz'' = Inr ''text/plain''
   \<and> scan_mimetypes example_mime_types ''gz'' = Inr (Some ''application/gzip'')
   \<and> scan_mimetypes example_mime_types ''tar.gz'' = Inr None"
  by code_simp

section \<open>The path of a request\<close>

text \<open>
  What the test of \<open>determine_request_path\<close> gives: a path that is returned is the path
  \<open>realpath\<close> finds for the root followed by the URI, and the root is a prefix of it as a
  string; when the path \<open>realpath\<close> finds does not begin with the root, and the root and
  the URI fit the buffer, the result is \<open>NULL\<close>.
\<close>

theorem determine_request_path_prefix:
  "(determine_request_path e u = Inr (Some p) \<longrightarrow>
      realpath e (RootPath e @ u) = Some p \<and> take (length (RootPath e)) p = RootPath e)
   \<and> (realpath e (RootPath e @ u) = Some p \<and> take (length (RootPath e)) p \<noteq> RootPath e
        \<and> length (RootPath e @ u) < BUFSIZ \<longrightarrow>
      determine_request_path e u = Inr None)"
  by (auto simp: determine_request_path_def strncmp_def split: option.splits if_splits)

theorem determine_request_path_prefix_witness:
  "determine_request_path example_env ''/docs/../index.html'' = Inr (Some ''/srv/www/index.html'')
   \<and> take 8 ''/srv/www/index.html'' = RootPath example_env
   \<and> realpath example_env (RootPath example_env @ ''/../../etc/mime.types'') = Some ''/etc/mime.types''
   \<and> determine_request_path example_env ''/../../etc/mime.types'' = Inr None"
proof -
  have 1: "determine_request_path example_env ''/docs/../index.html'' = Inr (Some ''/srv/www/index.html'')"
    by code_simp
  have 2: "realpath example_env (RootPath example_env @ ''/../../etc/mime.types'') = Some ''/etc/mime.types''"
    by code_simp
  have 3: "length (RootPath example_env) = 8" "RootPath example_env = ''/srv/www''"
    by (simp_all add: example_env_def)
  from determine_request_path_prefix [of example_env "''/docs/../index.html''" "''/srv/www/index.html''"]
       determine_request_path_prefix [of example_env "''/../../etc/mime.types''" "''/etc/mime.types''"]
       1 2 3
  show ?thesis by (simp add: BUFSIZ_def)
qed

text \<open>
  Claim C1. A prefix as a string is not a place below the root: with the root
  \<open>/srv/www\<close>, the URI \<open>/../www-private/secret.txt\<close> leaves the root through \<open>..\<close>
  and resolves to a file of the directory \<open>/srv/www-private\<close>, whose path begins with
  the text of the root; \<open>determine_request_path\<close> returns it, and it is not below the root.
\<close>

theorem determine_request_path_escapes_root:
  "determine_request_path example_env ''/../www-private/secret.txt''
     = Inr (Some ''/srv/www-private/secret.txt'')
   \<and> \<not> descendant_or_equal (RootPath example_env) ''/srv/www-private/secret.txt''"
  by code_simp

section \<open>The dispatch\<close>

lemma determine_request_path_fopen:
  "determine_request_path (e\<lparr>fopen := f\<rparr>) u = determine_request_path e u"
  by (simp add: determine_request_path_def cong: option.case_cong)

lemma handle_cgi_request_fopen:
  "handle_cgi_request (e\<lparr>fopen := f\<rparr>) r = handle_cgi_request e r"
  by (simp add: handle_cgi_request_def cong: option.case_cong prod.case_cong)

lemma handle_browse_request_fopen:
  "handle_browse_request (e\<lparr>fopen := f\<rparr>) r = handle_browse_request e r"
  by (simp add: handle_browse_request_def scandir_def cong: option.case_cong)

text \<open>
  Claim C2. When the request is parsed, its path resolved, and the server may execute
  what the path names, \<open>handle_request\<close> runs \<open>handle_cgi_request\<close> on a regular file,
  whatever its name, and \<open>handle_browse_request\<close> on a directory: the directory is tested
  first, the permission second, the regular file last. The answer does not depend on what
  the files hold, so the file is not served as it is.
\<close>

theorem handle_request_executable_is_cgi:
  assumes "parse_request r = Inr (0, r1)" and "uri r1 = Some u"
    and "determine_request_path e u = Inr (Some p)"
    and "stat e p = Some mode" and "access_X_OK e p"
  shows "(mode = S_IFREG \<longrightarrow>
            handle_request e r = error_unless_ok (handle_cgi_request e (r1\<lparr>path := Some p\<rparr>)))
         \<and> (mode = S_IFDIR \<longrightarrow>
            handle_request e r = error_unless_ok (handle_browse_request e (r1\<lparr>path := Some p\<rparr>)))
         \<and> handle_request (e\<lparr>fopen := f\<rparr>) r = handle_request e r"
proof -
  have 1: "handle_request e r =
      error_unless_ok (if mode = S_IFDIR then handle_browse_request e (r1\<lparr>path := Some p\<rparr>)
                       else handle_cgi_request e (r1\<lparr>path := Some p\<rparr>))"
    using assms by (simp add: handle_request_def)
  have 2: "handle_request (e\<lparr>fopen := f\<rparr>) r =
      error_unless_ok (if mode = S_IFDIR then handle_browse_request e (r1\<lparr>path := Some p\<rparr>)
                       else handle_cgi_request e (r1\<lparr>path := Some p\<rparr>))"
    using assms
    by (simp add: handle_request_def determine_request_path_fopen handle_cgi_request_fopen
        handle_browse_request_fopen)
  from 1 2 show ?thesis by simp
qed

lemma parse_hello:
  "parse_request (accepted (''GET /hello.html HTTP/1.0'' @ CRLF @ ''Host: example'' @ CRLF @ CRLF))
     = Inr (0, (accepted [])\<lparr>method := Some ''GET'', uri := Some ''/hello.html'', query := Some [],
                 headers := [\<lparr>name = ''Host'', data = ''example''\<rparr>]\<rparr>)"
  by code_simp

lemma path_hello:
  "determine_request_path example_env ''/hello.html'' = Inr (Some ''/srv/www/hello.html'')"
  by code_simp

theorem handle_request_executable_is_cgi_witness:
  "handle_request example_env
     (accepted (''GET /hello.html HTTP/1.0'' @ CRLF @ ''Host: example'' @ CRLF @ CRLF))
   = Inr (HTTP_STATUS_OK,
          (accepted [])\<lparr>method := Some ''GET'', uri := Some ''/hello.html'', query := Some [],
              headers := [\<lparr>name = ''Host'', data = ''example''\<rparr>],
              path := Some ''/srv/www/hello.html'',
              stream_out := ''HTTP/1.0 200 OK'' @ CRLF @ CRLF @ ''hello''\<rparr>)
   \<and> stat example_env ''/srv/www/hello.html'' = Some S_IFREG
   \<and> access_X_OK example_env ''/srv/www/hello.html''
   \<and> fopen example_env ''/srv/www/hello.html'' = Some ''#!/bin/sh''"
proof -
  have s: "stat example_env ''/srv/www/hello.html'' = Some S_IFREG"
    by (simp add: example_env_def example_tree_def)
  have a: "access_X_OK example_env ''/srv/www/hello.html''"
    by (simp add: example_env_def)
  have f: "fopen example_env ''/srv/www/hello.html'' = Some ''#!/bin/sh''"
    by (simp add: example_env_def)
  have c: "copy_lines (''HTTP/1.0 200 OK'' @ CRLF @ CRLF @ ''hello'')
             = ''HTTP/1.0 200 OK'' @ CRLF @ CRLF @ ''hello''"
    by code_simp
  have cgi: "error_unless_ok (handle_cgi_request example_env
       ((accepted [])\<lparr>method := Some ''GET'', uri := Some ''/hello.html'', query := Some [],
                 headers := [\<lparr>name = ''Host'', data = ''example''\<rparr>],
                 path := Some ''/srv/www/hello.html''\<rparr>))
     = Inr (HTTP_STATUS_OK,
          (accepted [])\<lparr>method := Some ''GET'', uri := Some ''/hello.html'', query := Some [],
              headers := [\<lparr>name = ''Host'', data = ''example''\<rparr>],
              path := Some ''/srv/www/hello.html'',
              stream_out := ''HTTP/1.0 200 OK'' @ CRLF @ CRLF @ ''hello''\<rparr>)"
    using c by (simp add: error_unless_ok_def handle_cgi_request_def accepted_def example_env_def fprintf_def)
  from handle_request_executable_is_cgi [OF parse_hello _ path_hello s a] cgi s a f
  show ?thesis by (simp add: accepted_def)
qed

end
